theory Spec2Isabelle
  imports Main
begin

section \<open>Filter contexts and validation settings\<close>

text \<open>
  Modelled from the spec: the \<open>Event\<close> enumeration and the \<open>FilterContext\<close> class are
  imported from \<open>_filter_context\<close>, which is not among the sources. The cog builds a
  context as \<open>FilterContext(Event.MESSAGE, msg.author, msg.channel, msg.content, ...)\<close>;
  the record keeps the fields that validations and content matchers read. The accumulators
  that filters and actions write (\<open>matches\<close>, \<open>send_alert\<close>, ...) are left out: the
  functions below only hand the context on to predicates.
\<close>

datatype Event = MESSAGE | MESSAGE_EDIT

record FilterContext =
  event :: Event
  author :: string
  channel :: string
  content :: string

text \<open>
  The class \<open>ValidationSettings\<close> lives in \<open>_settings\<close>, which is not among the sources.
  \<open>filter_list_result\<close> uses two things of it, and both are parameters of the model:
  the method \<open>evaluate\<close>, which returns the set of the settings that passed and the set of
  those that failed on a context (the parameter \<open>ev\<close>), and the truth value of a settings
  object, which \<open>if not filter_.validations\<close> tests (the parameter \<open>is_true\<close>). \<open>'vs\<close>
  is the type of the settings objects and \<open>'k\<close> the type of the identities of settings.
  \<open>None\<close> is false, whatever the class does.
\<close>

fun truthy :: "('vs \<Rightarrow> bool) \<Rightarrow> 'vs option \<Rightarrow> bool" where
  "truthy is_true None = False"
| "truthy is_true (Some settings) = is_true settings"

text \<open>
  Modelled from the spec: the settings group that the spec describes, for the statements
  about an empty group and for the examples. A settings group is a mapping from the
  identity of a setting to the setting; a validation setting is a predicate on the context,
  and a predicate that raises is the value \<open>None\<close>.
\<close>

type_synonym 'k ValidationSettings = "('k \<times> (FilterContext \<Rightarrow> bool option)) list"

text \<open>
  Modelled from the spec: \<open>evaluate\<close> calls every contained setting and partitions the
  settings into those that passed and those that failed; a setting whose evaluation raises
  counts as failed.
\<close>

definition evaluate :: "'k ValidationSettings \<Rightarrow> FilterContext \<Rightarrow> 'k set \<times> 'k set" where
  "evaluate settings ctx =
     (set (map fst (filter (\<lambda>(name, validation). validation ctx = Some True) settings)),
      set (map fst (filter (\<lambda>(name, validation). validation ctx \<noteq> Some True) settings)))"

text \<open>
  Two truth values that a settings class can have in Python: that of a mapping, which is
  false when it is empty, and that of an object whose class defines neither a truth value
  nor a length, which is always true.
\<close>

definition mapping_true :: "('k \<times> 'v) list \<Rightarrow> bool" where
  "mapping_true settings = (settings \<noteq> [])"


section \<open>Filters and the relevance algorithm of FilterList\<close>

text \<open>
  The \<open>Filter\<close> class is imported from \<open>_filters.filter\<close>; \<open>filter_list_result\<close> reads
  its optional validation overrides and calls its abstract method \<open>triggered_on\<close>, which
  is a field here.
\<close>

record 'vs Filter =
  validations :: "'vs option"
  triggered_on :: "FilterContext \<Rightarrow> bool"

text \<open>
  The test of the \<open>else\<close> branch of \<open>filter_list_result\<close>:
  \<open>not failed and failed_by_default < passed\<close>. On Python sets \<open><\<close> is the proper subset.
\<close>

definition overrides_pass ::
  "('vs \<Rightarrow> FilterContext \<Rightarrow> 'k set \<times> 'k set) \<Rightarrow> 'k set \<Rightarrow> 'vs \<Rightarrow> FilterContext \<Rightarrow> bool" where
  "overrides_pass ev failed_by_default overrides ctx =
     (let (passed, failed) = ev overrides ctx
      in failed = {} \<and> failed_by_default \<subset> passed)"

text \<open>The loop over \<open>filters.values()\<close>, appending to \<open>relevant_filters\<close>.\<close>

fun sift ::
  "('vs \<Rightarrow> bool) \<Rightarrow> ('vs \<Rightarrow> FilterContext \<Rightarrow> 'k set \<times> 'k set) \<Rightarrow> FilterContext \<Rightarrow> 'k set \<Rightarrow> bool
     \<Rightarrow> 'vs Filter list \<Rightarrow> 'vs Filter list \<Rightarrow> 'vs Filter list" where
  "sift is_true ev ctx failed_by_default default_answer [] relevant_filters = relevant_filters"
| "sift is_true ev ctx failed_by_default default_answer (f # rest) relevant_filters =
     (if \<not> truthy is_true (validations f) then
        (if default_answer \<and> triggered_on f ctx
         then sift is_true ev ctx failed_by_default default_answer rest (relevant_filters @ [f])
         else sift is_true ev ctx failed_by_default default_answer rest relevant_filters)
      else
        (case validations f of
           None \<Rightarrow> sift is_true ev ctx failed_by_default default_answer rest relevant_filters
         | Some overrides \<Rightarrow>
             (if overrides_pass ev failed_by_default overrides ctx
              then (if triggered_on f ctx
                    then sift is_true ev ctx failed_by_default default_answer rest
                           (relevant_filters @ [f])
                    else sift is_true ev ctx failed_by_default default_answer rest relevant_filters)
              else sift is_true ev ctx failed_by_default default_answer rest relevant_filters)))"

text \<open>
  \<open>filter_list_result(ctx, filters, defaults)\<close>. The dict \<open>filters\<close> is an association
  list from filter id to filter, in insertion order.
\<close>

definition filter_list_result ::
  "('vs \<Rightarrow> bool) \<Rightarrow> ('vs \<Rightarrow> FilterContext \<Rightarrow> 'k set \<times> 'k set) \<Rightarrow> FilterContext
     \<Rightarrow> (int \<times> 'vs Filter) list \<Rightarrow> 'vs \<Rightarrow> 'vs Filter list" where
  "filter_list_result is_true ev ctx filters defaults =
     (let (passed_by_default, failed_by_default) = ev defaults ctx;
          default_answer = (failed_by_default = {})
      in sift is_true ev ctx failed_by_default default_answer (map snd filters) [])"

section \<open>Python values, dictionaries and exceptions\<close>

text \<open>
  The records that the API returns are JSON objects: dictionaries from strings to values.
  Lists and dictionaries are unhashable in Python, so they cannot be dictionary keys.
\<close>

datatype pyval =
    PyNone
  | PyInt int
  | PyStr string
  | PyList "pyval list"
  | PyDict "(string \<times> pyval) list"

fun hashable :: "pyval \<Rightarrow> bool" where
  "hashable (PyList xs) = False"
| "hashable (PyDict kvs) = False"
| "hashable v = True"

datatype error = TypeError | KeyError | ValueError | BadArgument

datatype warning = FilterSkipped error | NoMatchingClass string

text \<open>
  A dict is an association list in insertion order with distinct keys: \<open>d.get(k)\<close> is
  \<open>dict_get\<close>, and \<open>d[k] = v\<close> is \<open>dict_set\<close>, which replaces the value of a key that is
  present where it stands and appends a new key at the end.
\<close>

fun dict_get :: "('k \<times> 'v) list \<Rightarrow> 'k \<Rightarrow> 'v option" where
  "dict_get [] k = None"
| "dict_get ((k', v) # d) k = (if k' = k then Some v else dict_get d k)"

fun dict_set :: "('k \<times> 'v) list \<Rightarrow> 'k \<Rightarrow> 'v \<Rightarrow> ('k \<times> 'v) list" where
  "dict_set [] k v = [(k, v)]"
| "dict_set ((k', v') # d) k v = (if k' = k then (k, v) # d else (k', v') # dict_set d k v)"

text \<open>
  What a function leaves behind: the object after the call, the warnings it logged, and the
  exception that left it, if any. Python keeps the mutations made before a raise.
\<close>

datatype 'st outcome = Outcome (post: 'st) (logged: "warning list") (raised: "error option")

section \<open>FilterList: list types, add_list and add_filter\<close>

datatype ListType = DENY | ALLOW

text \<open>\<open>ListType(value)\<close>: the lookup of an enum member by value raises ValueError.\<close>

definition ListType_of :: "int \<Rightarrow> error + ListType" where
  "ListType_of v = (if v = 0 then Inr DENY else if v = 1 then Inr ALLOW else Inl ValueError)"

text \<open>
  The state of a \<open>FilterList\<close> object, as \<open>__init__\<close> sets it up. The constructor
  \<open>filter_type\<close> of the filters is the class handed to \<open>__init__\<close>; it is a function from
  the filter record to the filter, or to the exception it raises. The default settings of a
  list type are the pair of the actions and the validations.
\<close>

record ('a, 'v, 'f) FilterList =
  list_ids :: "(ListType \<times> pyval) list"
  filter_lists :: "(ListType \<times> (pyval \<times> 'f) list) list"
  defaults :: "(ListType \<times> ('a \<times> 'v)) list"
  filter_type :: "(string \<times> pyval) list \<Rightarrow> error + 'f"

definition FilterList_init :: "((string \<times> pyval) list \<Rightarrow> error + 'f) \<Rightarrow> ('a, 'v, 'f) FilterList" where
  "FilterList_init ft = \<lparr>list_ids = [], filter_lists = [], defaults = [], filter_type = ft\<rparr>"

text \<open>
  The definition record of one list, as \<open>add_list\<close> and \<open>cog_load\<close> read it; it is taken
  to carry all of the keys \<open>name\<close>, \<open>list_type\<close>, \<open>id\<close>, \<open>settings\<close> and \<open>filters\<close>.
\<close>

record 'raw list_data =
  raw_name :: string
  raw_list_type :: int
  raw_id :: pyval
  raw_settings :: 'raw
  raw_filters :: "(string \<times> pyval) list list"

text \<open>The handler of \<open>add_filter\<close>: \<open>except TypeError as e: log.warning(e)\<close>.\<close>

definition except_TypeError :: "'st \<Rightarrow> error \<Rightarrow> 'st outcome" where
  "except_TypeError self e =
     (if e = TypeError then Outcome self [FilterSkipped e] None else Outcome self [] (Some e))"

text \<open>
  \<open>add_filter(filter_data, list_type)\<close>. In the assignment
  \<open>self.filter_lists[list_type][filter_data["id"]] = self.filter_type(filter_data)\<close> Python
  evaluates the right-hand side first, then the dictionary \<open>self.filter_lists[list_type]\<close>,
  then the key \<open>filter_data["id"]\<close>, and then stores; a missing key raises KeyError and an
  unhashable key raises TypeError.
\<close>

definition add_filter ::
  "(string \<times> pyval) list \<Rightarrow> ListType \<Rightarrow> ('a, 'v, 'f) FilterList \<Rightarrow> ('a, 'v, 'f) FilterList outcome" where
  "add_filter filter_data list_type self =
     (case filter_type self filter_data of
        Inl e \<Rightarrow> except_TypeError self e
      | Inr new_filter \<Rightarrow>
          (case dict_get (filter_lists self) list_type of
             None \<Rightarrow> except_TypeError self KeyError
           | Some sublist \<Rightarrow>
               (case dict_get filter_data ''id'' of
                  None \<Rightarrow> except_TypeError self KeyError
                | Some key \<Rightarrow>
                    (if hashable key
                     then Outcome
                            (self\<lparr>filter_lists :=
                               dict_set (filter_lists self) list_type (dict_set sublist key new_filter)\<rparr>)
                            [] None
                     else except_TypeError self TypeError))))"

text \<open>The loop \<open>for filter_data in list_data["filters"]: self.add_filter(filter_data, list_type)\<close>.\<close>

fun add_filters ::
  "(string \<times> pyval) list list \<Rightarrow> ListType \<Rightarrow> ('a, 'v, 'f) FilterList \<Rightarrow> warning list
     \<Rightarrow> ('a, 'v, 'f) FilterList outcome" where
  "add_filters [] list_type self log = Outcome self log None"
| "add_filters (filter_data # rest) list_type self log =
     (case add_filter filter_data list_type self of
        Outcome self' warnings None \<Rightarrow> add_filters rest list_type self' (log @ warnings)
      | Outcome self' warnings (Some e) \<Rightarrow> Outcome self' (log @ warnings) (Some e))"

text \<open>
  \<open>add_list(list_data)\<close>. The function \<open>create_settings\<close> is imported from \<open>_settings\<close>,
  which is not among the sources: it is a parameter, called with \<open>keep_empty=True\<close>, that
  returns the actions and the validations or raises.
\<close>

definition add_list ::
  "('raw \<Rightarrow> error + ('a \<times> 'v)) \<Rightarrow> 'raw list_data \<Rightarrow> ('a, 'v, 'f) FilterList
     \<Rightarrow> ('a, 'v, 'f) FilterList outcome" where
  "add_list create_settings data self =
     (case create_settings (raw_settings data) of
        Inl e \<Rightarrow> Outcome self [] (Some e)
      | Inr (actions, validation_settings) \<Rightarrow>
          (case ListType_of (raw_list_type data) of
             Inl e \<Rightarrow> Outcome self [] (Some e)
           | Inr list_type \<Rightarrow>
               add_filters (raw_filters data) list_type
                 (self\<lparr>defaults := dict_set (defaults self) list_type (actions, validation_settings),
                       list_ids := dict_set (list_ids self) list_type (raw_id data),
                       filter_lists := dict_set (filter_lists self) list_type []\<rparr>)
                 []))"

section \<open>The Filtering cog\<close>

subsection \<open>Loading\<close>

text \<open>
  The registry \<open>filter_list_types\<close> maps the name of a list to its class; it is imported
  from \<open>_filter_lists\<close>, which is not among the sources, and is a parameter.  A class is
  represented by the filter constructor that it hands to \<open>FilterList.__init__\<close>, and
  \<open>filter_list_types[list_name](self)\<close> is the freshly initialised object. The dict
  \<open>self.filter_lists\<close> of the cog maps list names to the lists.
\<close>

text \<open>Line 68 of \<open>cog_load\<close>: \<open>self.filter_lists[list_name].add_list(raw_filter_list)\<close>.\<close>

definition call_add_list ::
  "('raw \<Rightarrow> error + ('a \<times> 'v)) \<Rightarrow> 'raw list_data \<Rightarrow> (string \<times> ('a, 'v, 'f) FilterList) list
     \<Rightarrow> string set \<Rightarrow> ((string \<times> ('a, 'v, 'f) FilterList) list \<times> string set) outcome" where
  "call_add_list create_settings raw_filter_list cog_lists already_warned =
     (case dict_get cog_lists (raw_name raw_filter_list) of
        None \<Rightarrow> Outcome (cog_lists, already_warned) [] (Some KeyError)
      | Some filter_list \<Rightarrow>
          (case add_list create_settings raw_filter_list filter_list of
             Outcome filter_list' warnings r \<Rightarrow>
               Outcome (dict_set cog_lists (raw_name raw_filter_list) filter_list', already_warned)
                 warnings r))"

text \<open>The body of the loop of \<open>cog_load\<close> over the definition records.\<close>

definition load_record ::
  "(string \<Rightarrow> ((string \<times> pyval) list \<Rightarrow> error + 'f) option) \<Rightarrow> ('raw \<Rightarrow> error + ('a \<times> 'v))
     \<Rightarrow> 'raw list_data \<Rightarrow> (string \<times> ('a, 'v, 'f) FilterList) list \<Rightarrow> string set
     \<Rightarrow> ((string \<times> ('a, 'v, 'f) FilterList) list \<times> string set) outcome" where
  "load_record filter_list_types create_settings raw_filter_list cog_lists already_warned =
     (let list_name = raw_name raw_filter_list in
      case dict_get cog_lists list_name of
        None \<Rightarrow>
          (case filter_list_types list_name of
             None \<Rightarrow>
               (if list_name \<notin> already_warned
                then Outcome (cog_lists, insert list_name already_warned) [NoMatchingClass list_name] None
                else Outcome (cog_lists, already_warned) [] None)
           | Some cls \<Rightarrow>
               call_add_list create_settings raw_filter_list
                 (dict_set cog_lists list_name (FilterList_init cls)) already_warned)
      | Some filter_list \<Rightarrow>
          call_add_list create_settings raw_filter_list cog_lists already_warned)"

fun load_records ::
  "(string \<Rightarrow> ((string \<times> pyval) list \<Rightarrow> error + 'f) option) \<Rightarrow> ('raw \<Rightarrow> error + ('a \<times> 'v))
     \<Rightarrow> 'raw list_data list \<Rightarrow> (string \<times> ('a, 'v, 'f) FilterList) list \<Rightarrow> string set
     \<Rightarrow> warning list \<Rightarrow> ((string \<times> ('a, 'v, 'f) FilterList) list \<times> string set) outcome" where
  "load_records filter_list_types create_settings [] cog_lists already_warned log =
     Outcome (cog_lists, already_warned) log None"
| "load_records filter_list_types create_settings (raw_filter_list # rest) cog_lists already_warned log =
     (case load_record filter_list_types create_settings raw_filter_list cog_lists already_warned of
        Outcome (cog_lists', already_warned') warnings None \<Rightarrow>
          load_records filter_list_types create_settings rest cog_lists' already_warned' (log @ warnings)
      | Outcome st warnings (Some e) \<Rightarrow> Outcome st (log @ warnings) (Some e))"

text \<open>
  Lines 54 to 68 of \<open>cog_load\<close>: \<open>already_warned = set()\<close> and the loop over the records
  that the API returned. The fetch of the webhook and \<open>collect_loaded_types\<close> follow it.
\<close>

definition cog_load ::
  "(string \<Rightarrow> ((string \<times> pyval) list \<Rightarrow> error + 'f) option) \<Rightarrow> ('raw \<Rightarrow> error + ('a \<times> 'v))
     \<Rightarrow> 'raw list_data list \<Rightarrow> (string \<times> ('a, 'v, 'f) FilterList) list
     \<Rightarrow> ((string \<times> ('a, 'v, 'f) FilterList) list \<times> string set) outcome" where
  "cog_load filter_list_types create_settings raw_filter_lists cog_lists =
     load_records filter_list_types create_settings raw_filter_lists cog_lists {} []"

subsection \<open>Subscriptions\<close>

text \<open>
  \<open>self._subscriptions\<close> is a \<open>defaultdict(list)\<close>: a total function from events to lists
  of filter lists. A filter list is compared by identity; \<open>'fl\<close> is the type of these
  identities.
\<close>

fun subscribe :: "'fl \<Rightarrow> Event list \<Rightarrow> (Event \<Rightarrow> 'fl list) \<Rightarrow> (Event \<Rightarrow> 'fl list)" where
  "subscribe filter_list [] subscriptions = subscriptions"
| "subscribe filter_list (ev # events) subscriptions =
     subscribe filter_list events
       (if filter_list \<notin> set (subscriptions ev)
        then subscriptions(ev := subscriptions ev @ [filter_list])
        else subscriptions)"

subsection \<open>Resolving the actions\<close>




subsection \<open>Lookups\<close>

text \<open>
  \<open>_get_list_by_name\<close>. A \<open>FilterList\<close> object is true in \<open>if not filter_list\<close> (the class
  defines no length and no truth value), so the test distinguishes the \<open>None\<close> that
  \<open>dict.get\<close> returns for a missing key.
\<close>

definition endswith_s :: "string \<Rightarrow> bool" where
  "endswith_s list_name = (list_name \<noteq> [] \<and> last list_name = CHR ''s'')"

definition get_list_by_name :: "(string \<times> 'l) list \<Rightarrow> string \<Rightarrow> error + 'l" where
  "get_list_by_name cog_lists list_name =
     (case dict_get cog_lists list_name of
        Some filter_list \<Rightarrow> Inr filter_list
      | None \<Rightarrow>
          (case (if endswith_s list_name then dict_get cog_lists (butlast list_name) else None) of
             Some filter_list \<Rightarrow> Inr filter_list
           | None \<Rightarrow> Inl BadArgument))"

text \<open>\<open>_get_filter_by_id\<close>: the first sub-list that holds the id, or \<open>None\<close>.\<close>

fun find_in_sublists :: "(ListType \<times> (pyval \<times> 'f) list) list \<Rightarrow> int \<Rightarrow> ('f \<times> ListType) option" where
  "find_in_sublists [] ident = None"
| "find_in_sublists ((list_type, sublist) # rest) ident =
     (case dict_get sublist (PyInt ident) of
        Some found \<Rightarrow> Some (found, list_type)
      | None \<Rightarrow> find_in_sublists rest ident)"

fun get_filter_by_id ::
  "(string \<times> ('a, 'v, 'f) FilterList) list \<Rightarrow> int \<Rightarrow> ('f \<times> ('a, 'v, 'f) FilterList \<times> ListType) option" where
  "get_filter_by_id [] ident = None"
| "get_filter_by_id ((list_name, filter_list) # rest) ident =
     (case find_in_sublists (filter_lists filter_list) ident of
        Some (found, list_type) \<Rightarrow> Some (found, filter_list, list_type)
      | None \<Rightarrow> get_filter_by_id rest ident)"

section \<open>Example data\<close>

text \<open>
  The scenario of the spec: the default validations of a list admit only the mod-only
  channel category, and the context is a message in another channel. Filter \<open>R1\<close> has no
  overrides; filter \<open>R2\<close> overrides the channel category with a setting that always
  passes. Both match the content \<open>spam\<close>.
\<close>

definition general_ctx :: FilterContext where
  "general_ctx = \<lparr>event = MESSAGE, author = ''user'', channel = ''general'', content = ''spam''\<rparr>"

definition mod_only_defaults :: "string ValidationSettings" where
  "mod_only_defaults = [(''channel_category'', \<lambda>ctx. Some (channel ctx = ''mod-only''))]"

definition R1 :: "string ValidationSettings Filter" where
  "R1 = \<lparr>validations = None, triggered_on = (\<lambda>ctx. content ctx = ''spam'')\<rparr>"

definition R2_overrides :: "string ValidationSettings" where
  "R2_overrides = [(''channel_category'', \<lambda>ctx. Some True)]"

definition R2 :: "string ValidationSettings Filter" where
  "R2 = \<lparr>validations = Some R2_overrides, triggered_on = (\<lambda>ctx. content ctx = ''spam'')\<rparr>"


text \<open>
  A filter constructor for the examples: the filter is its content string; a record without
  content raises KeyError, as a subscript on a dict does, and content that is no string
  raises TypeError. The example \<open>create_settings\<close> keeps the raw settings.
\<close>

definition content_filter :: "(string \<times> pyval) list \<Rightarrow> error + string" where
  "content_filter filter_data =
     (case dict_get filter_data ''content'' of
        None \<Rightarrow> Inl KeyError
      | Some (PyStr c) \<Rightarrow> Inr c
      | Some other \<Rightarrow> Inl TypeError)"

definition keep_raw ::
  "(string \<times> pyval) list \<Rightarrow> error + ((string \<times> pyval) list \<times> (string \<times> pyval) list)" where
  "keep_raw raw = Inr (raw, raw)"

definition token_deny_v1 :: "(string \<times> pyval) list list_data" where
  "token_deny_v1 = \<lparr>raw_name = ''token'', raw_list_type = 0, raw_id = PyInt 1, raw_settings = [],
     raw_filters = [[(''id'', PyInt 10), (''content'', PyStr ''first'')]]\<rparr>"

definition token_deny_v2 :: "(string \<times> pyval) list list_data" where
  "token_deny_v2 = \<lparr>raw_name = ''token'', raw_list_type = 0, raw_id = PyInt 1, raw_settings = [],
     raw_filters = [[(''id'', PyInt 20), (''content'', PyStr ''second'')]]\<rparr>"

definition mystery_list :: "(string \<times> pyval) list list_data" where
  "mystery_list = \<lparr>raw_name = ''mystery'', raw_list_type = 0, raw_id = PyInt 2, raw_settings = [],
     raw_filters = []\<rparr>"

definition loaded_once :: "((string \<times> pyval) list, (string \<times> pyval) list, string) FilterList" where
  "loaded_once = post (add_list keep_raw token_deny_v1 (FilterList_init content_filter))"

definition record_without_id :: "(string \<times> pyval) list" where
  "record_without_id = [(''content'', PyStr ''spam''), (''description'', PyNone)]"

definition token_only :: "string \<Rightarrow> ((string \<times> pyval) list \<Rightarrow> error + string) option" where
  "token_only list_name = (if list_name = ''token'' then Some content_filter else None)"


definition message_subscribers :: "Event \<Rightarrow> string list" where
  "message_subscribers ev = (if ev = MESSAGE then [''invite'', ''token'', ''domain''] else [])"




section \<open>Auxiliary notions for the statements\<close>

text \<open>
  The entries that a list of filter records can contribute to a sub-list: the id of a
  record paired with the filter that the constructor builds from it.
\<close>

definition from_records ::
  "((string \<times> pyval) list \<Rightarrow> error + 'f) \<Rightarrow> (string \<times> pyval) list list \<Rightarrow> (pyval \<times> 'f) set" where
  "from_records ft fds = {(key, f). \<exists>fd \<in> set fds. dict_get fd ''id'' = Some key \<and> ft fd = Inr f}"

text \<open>
  Two states of a filter list agree at a list type: the same list id, defaults and filters
  for that type, and the same filter constructor.
\<close>

definition same_at :: "ListType \<Rightarrow> ('a, 'v, 'f) FilterList \<Rightarrow> ('a, 'v, 'f) FilterList \<Rightarrow> bool" where
  "same_at lt fl fl' =
     (dict_get (list_ids fl') lt = dict_get (list_ids fl) lt
      \<and> dict_get (defaults fl') lt = dict_get (defaults fl) lt
      \<and> dict_get (filter_lists fl') lt = dict_get (filter_lists fl) lt
      \<and> filter_type fl' = filter_type fl)"

text \<open>
  A filter list holds what a definition record defines: under the list type of the record
  it stores the list id of the record and the settings made from it, and a sub-list of
  filters in which every entry is built from a filter record of the record and in which
  every filter record that the constructor accepts and that has a hashable id is present
  under its id.
\<close>

definition holds_record ::
  "('raw \<Rightarrow> error + ('a \<times> 'v)) \<Rightarrow> 'raw list_data \<Rightarrow> ('a, 'v, 'f) FilterList \<Rightarrow> bool" where
  "holds_record cs r fl =
     (\<exists>lt av sub.
        ListType_of (raw_list_type r) = Inr lt \<and> cs (raw_settings r) = Inr av
        \<and> dict_get (list_ids fl) lt = Some (raw_id r)
        \<and> dict_get (defaults fl) lt = Some av
        \<and> dict_get (filter_lists fl) lt = Some sub
        \<and> set sub \<subseteq> from_records (filter_type fl) (raw_filters r)
        \<and> (\<forall>fd \<in> set (raw_filters r). \<forall>key f.
              dict_get fd ''id'' = Some key \<and> hashable key \<and> filter_type fl fd = Inr f
              \<longrightarrow> dict_get sub key \<noteq> None))"

section \<open>The relevance algorithm\<close>

lemma dict_get_set: "dict_get (dict_set d k v) k' = (if k' = k then Some v else dict_get d k')"
  by (induction d) auto

lemma dict_set_twice: "dict_set (dict_set d k v) k v' = dict_set d k v'"
  by (induction d) auto

lemma set_dict_set: "set (dict_set d k v) \<subseteq> insert (k, v) (set d)"
  by (induction d) (auto split: if_splits)

text \<open>The loop appends, in order, the filters that pass the test of their branch.\<close>

lemma sift_append:
  "sift is_true ev ctx fbd da fs acc =
     acc @ filter (\<lambda>f. if \<not> truthy is_true (validations f) then da \<and> triggered_on f ctx
                       else (case validations f of None \<Rightarrow> False
                             | Some ov \<Rightarrow> overrides_pass ev fbd ov ctx \<and> triggered_on f ctx)) fs"
  by (induction fs arbitrary: acc) (auto split: option.splits)

lemma filter_list_result_eq:
  "filter_list_result is_true ev ctx filters dflts =
     filter (\<lambda>f. if \<not> truthy is_true (validations f)
                  then snd (ev dflts ctx) = {} \<and> triggered_on f ctx
                  else (case validations f of None \<Rightarrow> False
                        | Some ov \<Rightarrow> overrides_pass ev (snd (ev dflts ctx)) ov ctx
                                    \<and> triggered_on f ctx))
       (map snd filters)"
  by (simp add: filter_list_result_def sift_append case_prod_beta)

text \<open>
  Claim C1. The claim reads the test on the overrides as the non-strict subset: a filter
  whose overrides all pass and cover every failed default is included when it triggers, and
  equality of the two sets suffices. The code tests the proper subset: when the settings
  that failed by default are exactly the settings that the overrides pass, a filter that
  defines overrides is not included, whatever its content matcher says.
\<close>

theorem exact_override_is_rejected:
  assumes "validations f = Some overrides" and "is_true overrides"
    and "snd (ev dflts ctx) = fst (ev overrides ctx)"
  shows "f \<notin> set (filter_list_result is_true ev ctx filters dflts)"
  using assms by (auto simp: filter_list_result_eq overrides_pass_def case_prod_beta)

theorem exact_override_is_rejected_witness:
  "validations R2 = Some R2_overrides
   \<and> mapping_true R2_overrides
   \<and> snd (evaluate mod_only_defaults general_ctx) = {''channel_category''}
   \<and> evaluate R2_overrides general_ctx = ({''channel_category''}, {})
   \<and> triggered_on R2 general_ctx
   \<and> R2 \<notin> set (filter_list_result mapping_true evaluate general_ctx [(7, R2)] mod_only_defaults)"
proof -
  have v: "validations R2 = Some R2_overrides" by (simp add: R2_def)
  have ne: "mapping_true R2_overrides" by (simp add: R2_overrides_def mapping_true_def)
  have d: "snd (evaluate mod_only_defaults general_ctx) = {''channel_category''}"
    by (simp add: evaluate_def mod_only_defaults_def general_ctx_def)
  have e: "evaluate R2_overrides general_ctx = ({''channel_category''}, {})"
    by (simp add: evaluate_def R2_overrides_def)
  have eq: "snd (evaluate mod_only_defaults general_ctx) = fst (evaluate R2_overrides general_ctx)"
    by (simp add: d e)
  have t: "triggered_on R2 general_ctx" by (simp add: R2_def general_ctx_def)
  from exact_override_is_rejected[where f=R2 and overrides=R2_overrides and is_true=mapping_true
      and ev=evaluate and dflts=mod_only_defaults and ctx=general_ctx and filters="[(7, R2)]",
      OF v ne eq] v ne d e t
  show ?thesis by blast
qed



text \<open>
  Claim C5. A filter that defines no validation overrides is returned by
  \<open>filter_list_result\<close> if and only if it is among the filters, no default validation
  failed on the context (the default answer), and its content matcher triggers. An empty
  group of default validations fails nothing, so with empty defaults such a filter is
  returned if and only if its content matcher triggers.
\<close>

theorem filter_without_overrides_included:
  "(\<not> truthy is_true (validations f) \<longrightarrow>
      (f \<in> set (filter_list_result is_true ev ctx filters dflts) \<longleftrightarrow>
         f \<in> set (map snd filters) \<and> snd (ev dflts ctx) = {} \<and> triggered_on f ctx))
   \<and> snd (evaluate [] ctx) = {}
   \<and> (\<not> truthy is_true' (validations g) \<longrightarrow>
      (g \<in> set (filter_list_result is_true' evaluate ctx filters' []) \<longleftrightarrow>
         g \<in> set (map snd filters') \<and> triggered_on g ctx))"
  by (auto simp: filter_list_result_eq evaluate_def)

theorem filter_without_overrides_included_witness:
  "\<not> truthy mapping_true (validations R1)
   \<and> snd (evaluate mod_only_defaults general_ctx) = {''channel_category''}
   \<and> triggered_on R1 general_ctx
   \<and> R1 \<notin> set (filter_list_result mapping_true evaluate general_ctx [(1, R1)] mod_only_defaults)
   \<and> R1 \<in> set (filter_list_result mapping_true evaluate general_ctx [(1, R1)] [])"
proof -
  have n: "\<not> truthy mapping_true (validations R1)" by (simp add: R1_def)
  have d: "snd (evaluate mod_only_defaults general_ctx) = {''channel_category''}"
    by (simp add: evaluate_def mod_only_defaults_def general_ctx_def)
  have t: "triggered_on R1 general_ctx" by (simp add: R1_def general_ctx_def)
  from filter_without_overrides_included[where f=R1 and g=R1 and is_true=mapping_true
      and is_true'=mapping_true and ev=evaluate and ctx=general_ctx and filters="[(1, R1)]"
      and filters'="[(1, R1)]" and dflts=mod_only_defaults] n d t
  show ?thesis by auto
qed

section \<open>Loading a list and adding a filter\<close>

lemma dict_get_in_set: "dict_get d k = Some v \<Longrightarrow> (k, v) \<in> set d"
  by (induction d) (auto split: if_splits)

text \<open>\<open>add_filter\<close> leaves the object alone or replaces the sub-list of its list type.\<close>

lemma add_filter_post:
  "post (add_filter fd lt s) = s \<or>
   (\<exists>sub. post (add_filter fd lt s) = s\<lparr>filter_lists := dict_set (filter_lists s) lt sub\<rparr>)"
  by (auto simp: add_filter_def except_TypeError_def split: sum.splits option.splits)

lemma add_filters_post:
  "post (add_filters fds lt s log) = s \<or>
   (\<exists>sub. post (add_filters fds lt s log) = s\<lparr>filter_lists := dict_set (filter_lists s) lt sub\<rparr>)"
proof (induction fds arbitrary: s log)
  case Nil
  then show ?case by simp
next
  case (Cons fd fds)
  obtain s' w r where af: "add_filter fd lt s = Outcome s' w r" by (cases "add_filter fd lt s")
  from add_filter_post[of fd lt s] af
  have s': "s' = s \<or> (\<exists>sub. s' = s\<lparr>filter_lists := dict_set (filter_lists s) lt sub\<rparr>)" by simp
  show ?case
  proof (cases r)
    case (Some e)
    with af s' show ?thesis by simp
  next
    case None
    with af have eq: "add_filters (fd # fds) lt s log = add_filters fds lt s' (log @ w)" by simp
    from Cons.IH[of s' "log @ w"] s' show ?thesis
      unfolding eq by (auto simp: dict_set_twice)
  qed
qed

lemma add_list_post:
  "post (add_list cs d s) = s \<or>
   (\<exists>lt X Y Z. ListType_of (raw_list_type d) = Inr lt \<and>
      post (add_list cs d s) =
        s\<lparr>defaults := dict_set (defaults s) lt X, list_ids := dict_set (list_ids s) lt Y,
           filter_lists := dict_set (filter_lists s) lt Z\<rparr>)"
proof (cases "cs (raw_settings d)")
  case (Inl e)
  then show ?thesis by (simp add: add_list_def)
next
  case (Inr av)
  obtain a v where av: "av = (a, v)" by (cases av)
  show ?thesis
  proof (cases "ListType_of (raw_list_type d)")
    case (Inl e)
    with Inr av show ?thesis by (simp add: add_list_def)
  next
    case lt: (Inr lt)
    let ?s1 = "s\<lparr>defaults := dict_set (defaults s) lt (a, v),
                  list_ids := dict_set (list_ids s) lt (raw_id d),
                  filter_lists := dict_set (filter_lists s) lt []\<rparr>"
    have eq: "add_list cs d s = add_filters (raw_filters d) lt ?s1 []"
      using Inr av lt by (simp add: add_list_def)
    from add_filters_post[of "raw_filters d" lt ?s1 "[]"]
    show ?thesis unfolding eq using lt
      by (fastforce simp: dict_set_twice)
  qed
qed

text \<open>The three assignments at the head of \<open>add_list\<close> erase what an earlier call stored.\<close>

lemma add_list_overwrites:
  assumes "ListType_of (raw_list_type d) = Inr lt" and "cs (raw_settings d) = Inr av"
  shows "add_list cs d (s\<lparr>defaults := dict_set (defaults s) lt X, list_ids := dict_set (list_ids s) lt Y,
           filter_lists := dict_set (filter_lists s) lt Z\<rparr>) = add_list cs d s"
  using assms by (simp add: add_list_def dict_set_twice split: sum.splits prod.splits)

lemma add_list_twice:
  assumes "raw_list_type d1 = raw_list_type d2" and cs2: "cs (raw_settings d2) = Inr av"
  shows "add_list cs d2 (post (add_list cs d1 s)) = add_list cs d2 s"
proof -
  from add_list_post[of cs d1 s] show ?thesis
  proof
    assume "post (add_list cs d1 s) = s"
    then show ?thesis by simp
  next
    assume "\<exists>lt X Y Z. ListType_of (raw_list_type d1) = Inr lt \<and>
      post (add_list cs d1 s) =
        s\<lparr>defaults := dict_set (defaults s) lt X, list_ids := dict_set (list_ids s) lt Y,
           filter_lists := dict_set (filter_lists s) lt Z\<rparr>"
    then obtain lt X Y Z where lt: "ListType_of (raw_list_type d1) = Inr lt"
      and p: "post (add_list cs d1 s) =
        s\<lparr>defaults := dict_set (defaults s) lt X, list_ids := dict_set (list_ids s) lt Y,
           filter_lists := dict_set (filter_lists s) lt Z\<rparr>" by blast
    from lt assms have "ListType_of (raw_list_type d2) = Inr lt" by simp
    then show ?thesis unfolding p using cs2 by (rule add_list_overwrites)
  qed
qed

text \<open>What the loop of \<open>add_list\<close> stores comes from the records it is given.\<close>

lemma add_filter_entries:
  assumes "dict_get (filter_lists s) lt = Some sub"
  shows "\<exists>sub'. dict_get (filter_lists (post (add_filter fd lt s))) lt = Some sub'
           \<and> set sub' \<subseteq> set sub \<union> from_records (filter_type s) [fd]
           \<and> filter_type (post (add_filter fd lt s)) = filter_type s
           \<and> list_ids (post (add_filter fd lt s)) = list_ids s
           \<and> defaults (post (add_filter fd lt s)) = defaults s"
  using assms set_dict_set[of sub]
  by (auto simp: add_filter_def except_TypeError_def dict_get_set from_records_def
      split: sum.splits option.splits)

lemma add_filters_entries:
  assumes "dict_get (filter_lists s) lt = Some sub"
  shows "\<exists>sub'. dict_get (filter_lists (post (add_filters fds lt s log))) lt = Some sub'
           \<and> set sub' \<subseteq> set sub \<union> from_records (filter_type s) fds
           \<and> list_ids (post (add_filters fds lt s log)) = list_ids s
           \<and> defaults (post (add_filters fds lt s log)) = defaults s"
  using assms
proof (induction fds arbitrary: s log sub)
  case Nil
  then show ?case by simp
next
  case (Cons fd fds)
  obtain s' w r where af: "add_filter fd lt s = Outcome s' w r" by (cases "add_filter fd lt s")
  from add_filter_entries[OF Cons.prems, of fd] af
  obtain sub1 where s1: "dict_get (filter_lists s') lt = Some sub1"
      "set sub1 \<subseteq> set sub \<union> from_records (filter_type s) [fd]"
      "filter_type s' = filter_type s" "list_ids s' = list_ids s" "defaults s' = defaults s"
    by auto
  have mono: "from_records (filter_type s) [fd] \<subseteq> from_records (filter_type s) (fd # fds)"
    "from_records (filter_type s) fds \<subseteq> from_records (filter_type s) (fd # fds)"
    by (auto simp: from_records_def)
  show ?case
  proof (cases r)
    case (Some e)
    with af s1 mono show ?thesis by auto
  next
    case None
    with af have eq: "add_filters (fd # fds) lt s log = add_filters fds lt s' (log @ w)" by simp
    from Cons.IH[OF s1(1), of "log @ w"] s1(3,4,5)
    obtain sub' where sub':
      "dict_get (filter_lists (post (add_filters fds lt s' (log @ w)))) lt = Some sub'"
      "set sub' \<subseteq> set sub1 \<union> from_records (filter_type s) fds"
      "list_ids (post (add_filters fds lt s' (log @ w))) = list_ids s"
      "defaults (post (add_filters fds lt s' (log @ w))) = defaults s"
      by auto
    from sub'(2) s1(2) mono
    have "set sub' \<subseteq> set sub \<union> from_records (filter_type s) (fd # fds)" by blast
    with sub'(1,3,4) show ?thesis unfolding eq by simp
  qed
qed

lemma add_list_result:
  assumes "cs (raw_settings d) = Inr av" and "ListType_of (raw_list_type d) = Inr lt"
  shows "dict_get (list_ids (post (add_list cs d s))) lt = Some (raw_id d)
       \<and> dict_get (defaults (post (add_list cs d s))) lt = Some av
       \<and> (\<exists>sub. dict_get (filter_lists (post (add_list cs d s))) lt = Some sub
              \<and> set sub \<subseteq> from_records (filter_type s) (raw_filters d))"
proof -
  obtain a v where av: "av = (a, v)" by (cases av)
  let ?s1 = "s\<lparr>defaults := dict_set (defaults s) lt (a, v),
                list_ids := dict_set (list_ids s) lt (raw_id d),
                filter_lists := dict_set (filter_lists s) lt []\<rparr>"
  have eq: "add_list cs d s = add_filters (raw_filters d) lt ?s1 []"
    using assms av by (simp add: add_list_def)
  have "dict_get (filter_lists ?s1) lt = Some []" by (simp add: dict_get_set)
  from add_filters_entries[OF this, of "raw_filters d" "[]"] show ?thesis
    unfolding eq by (auto simp: dict_get_set av)
qed

text \<open>
  Claim C6, as the code has it. The claim holds for the list id and the defaults, and fails
  for the filters: \<open>add_list\<close> resets \<open>filter_lists[list_type]\<close> to the empty dict before
  it loads the filters of its data. Amended: when \<open>add_list\<close> is called twice with data
  for the same list type and the settings of the later call are well-formed, the later call
  leaves the object and returns exactly as it would have without the earlier call; the
  stored list id and the stored defaults are those of the later call, and every filter of
  \<open>filter_lists[list_type]\<close> is built from a record of the later call's data, so a filter
  loaded by the earlier call alone is no longer present.
\<close>

theorem add_list_second_call_overrides:
  assumes "raw_list_type d1 = raw_list_type d2" and "cs (raw_settings d2) = Inr av"
  shows "add_list cs d2 (post (add_list cs d1 self)) = add_list cs d2 self
       \<and> (ListType_of (raw_list_type d2) = Inr lt \<longrightarrow>
            dict_get (list_ids (post (add_list cs d2 (post (add_list cs d1 self))))) lt
              = Some (raw_id d2)
          \<and> dict_get (defaults (post (add_list cs d2 (post (add_list cs d1 self))))) lt = Some av
          \<and> (\<exists>sub. dict_get (filter_lists (post (add_list cs d2 (post (add_list cs d1 self))))) lt
                       = Some sub
                   \<and> set sub \<subseteq> from_records (filter_type self) (raw_filters d2)))"
proof -
  have twice: "add_list cs d2 (post (add_list cs d1 self)) = add_list cs d2 self"
    using assms by (rule add_list_twice)
  show ?thesis unfolding twice
    using add_list_result[where cs=cs and d=d2 and av=av and lt=lt and s=self, OF assms(2)] by simp
qed

theorem add_list_second_call_overrides_witness:
  "raw_list_type token_deny_v1 = raw_list_type token_deny_v2
   \<and> keep_raw (raw_settings token_deny_v2) = Inr ([], [])
   \<and> add_list keep_raw token_deny_v2 (post (add_list keep_raw token_deny_v1 (FilterList_init content_filter)))
       = add_list keep_raw token_deny_v2 (FilterList_init content_filter)
   \<and> add_list keep_raw token_deny_v2 (FilterList_init content_filter)
       = Outcome \<lparr>list_ids = [(DENY, PyInt 1)], filter_lists = [(DENY, [(PyInt 20, ''second'')])],
                  defaults = [(DENY, ([], []))], filter_type = content_filter\<rparr> [] None"
proof -
  have t: "raw_list_type token_deny_v1 = raw_list_type token_deny_v2"
    by (simp add: token_deny_v1_def token_deny_v2_def)
  have c: "keep_raw (raw_settings token_deny_v2) = Inr ([], [])"
    by (simp add: keep_raw_def token_deny_v2_def)
  have r: "add_list keep_raw token_deny_v2 (FilterList_init content_filter)
       = Outcome \<lparr>list_ids = [(DENY, PyInt 1)], filter_lists = [(DENY, [(PyInt 20, ''second'')])],
                  defaults = [(DENY, ([], []))], filter_type = content_filter\<rparr> [] None"
    by (simp add: token_deny_v2_def add_list_def keep_raw_def
        FilterList_init_def ListType_of_def add_filter_def content_filter_def)
  from add_list_second_call_overrides[where ?d1.0=token_deny_v1 and ?d2.0=token_deny_v2
      and cs=keep_raw and av="([], [])" and self="FilterList_init content_filter" and lt=DENY, OF t c]
    t c r
  show ?thesis by blast
qed

text \<open>
  The claim C6 as stated fails: after the first load the deny list holds filter 10; the
  second load carries no record with id 10, and afterwards the deny list holds filter 20
  only.
\<close>

theorem add_list_drops_earlier_filters:
  "dict_get (filter_lists loaded_once) DENY = Some [(PyInt 10, ''first'')]
   \<and> map (\<lambda>fd. dict_get fd ''id'') (raw_filters token_deny_v2) = [Some (PyInt 20)]
   \<and> raised (add_list keep_raw token_deny_v2 loaded_once) = None
   \<and> dict_get (filter_lists (post (add_list keep_raw token_deny_v2 loaded_once))) DENY
       = Some [(PyInt 20, ''second'')]"
  by (simp add: loaded_once_def token_deny_v1_def token_deny_v2_def add_list_def keep_raw_def
      FilterList_init_def ListType_of_def add_filter_def content_filter_def)

text \<open>
  Claim C7. The claim says that a record without an \<open>id\<close> is logged and skipped. In the
  code, unless the filter constructor itself raised TypeError on the record, the subscript
  \<open>filter_data["id"]\<close> raises KeyError (or the constructor raised another exception),
  which the handler for TypeError does not catch: the exception reaches the caller. The
  object is left as it was.
\<close>

theorem add_filter_missing_id_raises:
  assumes "dict_get filter_data ''id'' = None" and "filter_type self filter_data \<noteq> Inl TypeError"
  shows "raised (add_filter filter_data list_type self) \<noteq> None
       \<and> logged (add_filter filter_data list_type self) = []
       \<and> post (add_filter filter_data list_type self) = self"
  using assms
  by (auto simp: add_filter_def except_TypeError_def split: sum.splits option.splits)

theorem add_filter_missing_id_raises_witness:
  "dict_get record_without_id ''id'' = None
   \<and> filter_type loaded_once record_without_id = Inr ''spam''
   \<and> dict_get (filter_lists loaded_once) DENY = Some [(PyInt 10, ''first'')]
   \<and> add_filter record_without_id DENY loaded_once = Outcome loaded_once [] (Some KeyError)"
proof -
  have i: "dict_get record_without_id ''id'' = None" by (simp add: record_without_id_def)
  have lo: "loaded_once = \<lparr>list_ids = [(DENY, PyInt 1)], filter_lists = [(DENY, [(PyInt 10, ''first'')])],
                  defaults = [(DENY, ([], []))], filter_type = content_filter\<rparr>"
    by (simp add: loaded_once_def token_deny_v1_def add_list_def keep_raw_def
        FilterList_init_def ListType_of_def add_filter_def content_filter_def)
  have f: "filter_type loaded_once record_without_id = Inr ''spam''"
    by (simp add: lo record_without_id_def content_filter_def)
  then have n: "filter_type loaded_once record_without_id \<noteq> Inl TypeError" by simp
  have l: "dict_get (filter_lists loaded_once) DENY = Some [(PyInt 10, ''first'')]"
    by (simp add: lo)
  have k: "raised (add_filter record_without_id DENY loaded_once) = Some KeyError"
    using i f l by (simp add: add_filter_def except_TypeError_def)
  from add_filter_missing_id_raises[OF i n, of DENY] k
  have "add_filter record_without_id DENY loaded_once = Outcome loaded_once [] (Some KeyError)"
    by (cases "add_filter record_without_id DENY loaded_once") simp
  with i f l show ?thesis by blast
qed

section \<open>Loading the definition records\<close>

text \<open>The warnings of \<open>add_list\<close> are about skipped filters only.\<close>

lemma add_filter_logged: "NoMatchingClass n \<notin> set (logged (add_filter fd lt s))"
  by (auto simp: add_filter_def except_TypeError_def split: sum.splits option.splits)

lemma add_filters_logged:
  "NoMatchingClass n \<notin> set log \<Longrightarrow> NoMatchingClass n \<notin> set (logged (add_filters fds lt s log))"
proof (induction fds arbitrary: s log)
  case Nil
  then show ?case by simp
next
  case (Cons fd fds)
  obtain s' w r where af: "add_filter fd lt s = Outcome s' w r" by (cases "add_filter fd lt s")
  with add_filter_logged[of n fd lt s] have w: "NoMatchingClass n \<notin> set w" by simp
  show ?case
  proof (cases r)
    case None
    with af Cons.IH[of "log @ w" s'] Cons.prems w show ?thesis by simp
  next
    case (Some e)
    with af Cons.prems w show ?thesis by simp
  qed
qed

lemma add_list_logged: "NoMatchingClass n \<notin> set (logged (add_list cs d s))"
  by (auto simp: add_list_def add_filters_logged split: sum.splits prod.splits)

lemma call_add_list_facts:
  "snd (post (call_add_list cs raw cog aw)) = aw"
  "NoMatchingClass n \<notin> set (logged (call_add_list cs raw cog aw))"
  "dict_get (fst (post (call_add_list cs raw cog aw))) m = None \<longleftrightarrow> dict_get cog m = None"
proof -
  show "snd (post (call_add_list cs raw cog aw)) = aw"
    by (auto simp: call_add_list_def split: option.splits outcome.splits)
  show "dict_get (fst (post (call_add_list cs raw cog aw))) m = None \<longleftrightarrow> dict_get cog m = None"
    by (auto simp: call_add_list_def dict_get_set split: option.splits outcome.splits)
  show "NoMatchingClass n \<notin> set (logged (call_add_list cs raw cog aw))"
  proof (cases "dict_get cog (raw_name raw)")
    case None
    then show ?thesis by (simp add: call_add_list_def)
  next
    case (Some fl)
    with add_list_logged[of n cs raw fl] show ?thesis
      by (cases "add_list cs raw fl") (simp add: call_add_list_def)
  qed
qed

lemma call_add_list_aw:
  "call_add_list cs raw cog aw =
     Outcome (fst (post (call_add_list cs raw cog aw')), aw)
       (logged (call_add_list cs raw cog aw')) (raised (call_add_list cs raw cog aw'))"
  by (auto simp: call_add_list_def split: option.splits outcome.splits)

text \<open>A record whose name is neither loaded nor registered only touches the warnings.\<close>

lemma load_record_unknown:
  assumes "dict_get cog (raw_name raw) = None" and "T (raw_name raw) = None"
  shows "load_record T cs raw cog aw =
           Outcome (cog, insert (raw_name raw) aw)
             (if raw_name raw \<in> aw then [] else [NoMatchingClass (raw_name raw)]) None"
  using assms by (auto simp: load_record_def Let_def insert_absorb)

text \<open>Any other record is loaded the same way whatever has been warned about.\<close>

lemma load_record_known:
  assumes "\<not> (dict_get cog (raw_name raw) = None \<and> T (raw_name raw) = None)"
  shows "load_record T cs raw cog aw =
     Outcome (fst (post (load_record T cs raw cog aw')), aw)
       (logged (load_record T cs raw cog aw')) (raised (load_record T cs raw cog aw'))"
    and "NoMatchingClass n \<notin> set (logged (load_record T cs raw cog aw))"
proof -
  show "load_record T cs raw cog aw =
     Outcome (fst (post (load_record T cs raw cog aw')), aw)
       (logged (load_record T cs raw cog aw')) (raised (load_record T cs raw cog aw'))"
    using assms call_add_list_aw[of cs raw _ aw aw']
    by (auto simp: load_record_def Let_def split: option.splits)
  show "NoMatchingClass n \<notin> set (logged (load_record T cs raw cog aw))"
    using assms by (auto simp: load_record_def Let_def call_add_list_facts split: option.splits)
qed

lemma load_record_keys:
  assumes "T m = None"
  shows "dict_get (fst (post (load_record T cs raw cog aw))) m = None \<longleftrightarrow> dict_get cog m = None"
  using assms
  by (auto simp: load_record_def Let_def call_add_list_facts dict_get_set split: option.splits)

lemma load_record_count:
  "count_list (logged (load_record T cs raw cog aw)) (NoMatchingClass n)
     + (if n \<in> snd (post (load_record T cs raw cog aw)) then 0 else 1)
   \<le> (if n \<in> aw then 0 else 1)"
proof (cases "dict_get cog (raw_name raw) = None \<and> T (raw_name raw) = None")
  case True
  then show ?thesis by (auto simp: load_record_unknown)
next
  case False
  from load_record_known(2)[where cog=cog and raw=raw and T=T and n=n and cs=cs and aw=aw, OF False]
  have "count_list (logged (load_record T cs raw cog aw)) (NoMatchingClass n) = 0"
    by (simp add: count_list_0_iff)
  moreover have "snd (post (load_record T cs raw cog aw)) = aw"
    by (subst load_record_known(1)[where cog=cog and raw=raw and T=T and cs=cs and aw=aw
          and aw'=aw, OF False]) simp
  ultimately show ?thesis by simp
qed

lemma load_records_count:
  "count_list (logged (load_records T cs raws cog aw log)) (NoMatchingClass n)
   \<le> count_list log (NoMatchingClass n) + (if n \<in> aw then 0 else 1)"
proof (induction raws arbitrary: cog aw log)
  case Nil
  then show ?case by simp
next
  case (Cons raw raws)
  obtain cog' aw' w r where lr: "load_record T cs raw cog aw = Outcome (cog', aw') w r"
    by (cases "load_record T cs raw cog aw") (auto)
  from load_record_count[of T cs raw cog aw n] lr
  have step: "count_list w (NoMatchingClass n) + (if n \<in> aw' then 0 else 1) \<le> (if n \<in> aw then 0 else 1)"
    by simp
  show ?case
  proof (cases r)
    case None
    with lr have eq: "load_records T cs (raw # raws) cog aw log = load_records T cs raws cog' aw' (log @ w)"
      by simp
    from Cons.IH[of cog' aw' "log @ w"] step show ?thesis unfolding eq by (auto split: if_splits)
  next
    case (Some e)
    with lr step show ?thesis by (auto split: if_splits)
  qed
qed

lemma load_records_keys:
  assumes "T m = None"
  shows "dict_get (fst (post (load_records T cs raws cog aw log))) m = None \<longleftrightarrow> dict_get cog m = None"
proof (induction raws arbitrary: cog aw log)
  case Nil
  then show ?case by simp
next
  case (Cons raw raws)
  obtain cog' aw' w r where lr: "load_record T cs raw cog aw = Outcome (cog', aw') w r"
    by (cases "load_record T cs raw cog aw") (auto)
  from load_record_keys[where T=T and m=m and cs=cs and raw=raw and cog=cog and aw=aw, OF assms] lr
  have step: "dict_get cog' m = None \<longleftrightarrow> dict_get cog m = None" by simp
  show ?case
  proof (cases r)
    case None
    with lr Cons.IH[of cog' aw' "log @ w"] step show ?thesis by simp
  next
    case (Some e)
    with lr step show ?thesis by simp
  qed
qed

lemma load_records_skip:
  "fst (post (load_records T cs raws cog aw log))
     = fst (post (load_records T cs
          (filter (\<lambda>r. \<not> (dict_get cog (raw_name r) = None \<and> T (raw_name r) = None)) raws) cog aw' log'))
   \<and> raised (load_records T cs raws cog aw log)
     = raised (load_records T cs
          (filter (\<lambda>r. \<not> (dict_get cog (raw_name r) = None \<and> T (raw_name r) = None)) raws) cog aw' log')"
proof (induction raws arbitrary: cog aw log aw' log')
  case Nil
  then show ?case by simp
next
  case (Cons raw raws)
  show ?case
  proof (cases "dict_get cog (raw_name raw) = None \<and> T (raw_name raw) = None")
    case True
    then show ?thesis using Cons.IH by (simp add: load_record_unknown)
  next
    case False
    note known = load_record_known(1)[where cog=cog and raw=raw and T=T and cs=cs, OF False]
    obtain cog1 w r where lr': "load_record T cs raw cog aw' = Outcome (cog1, aw') w r"
      using known[of aw' aw'] by (cases "load_record T cs raw cog aw'") auto
    with known[of aw aw']
    have lr: "load_record T cs raw cog aw = Outcome (cog1, aw) w r" by simp
    have keys: "dict_get cog1 m = None \<longleftrightarrow> dict_get cog m = None" if "T m = None" for m
      using load_record_keys[where T=T and m=m and cs=cs and raw=raw and cog=cog and aw=aw, OF that] lr
      by simp
    have same: "(\<lambda>r. \<not> (dict_get cog1 (raw_name r) = None \<and> T (raw_name r) = None))
              = (\<lambda>r. \<not> (dict_get cog (raw_name r) = None \<and> T (raw_name r) = None))"
    proof (rule ext)
      fix x
      show "(\<not> (dict_get cog1 (raw_name x) = None \<and> T (raw_name x) = None))
          = (\<not> (dict_get cog (raw_name x) = None \<and> T (raw_name x) = None))"
        using keys[of "raw_name x"] by (cases "T (raw_name x)") simp_all
    qed
    show ?thesis
    proof (cases r)
      case None
      note IH = Cons.IH[of cog1 aw "log @ w" aw' "log' @ w", unfolded same]
      with None False lr lr' show ?thesis by simp
    next
      case (Some e)
      with False lr lr' show ?thesis by simp
    qed
  qed
qed

text \<open>What a record that is loaded leaves in its filter list.\<close>

lemma add_list_filter_type: "filter_type (post (add_list cs d s)) = filter_type s"
  using add_list_post[of cs d s] by auto

lemma add_filter_presence:
  assumes "dict_get (filter_lists s) lt = Some sub"
  shows "\<exists>sub'. dict_get (filter_lists (post (add_filter fd lt s))) lt = Some sub'
           \<and> (\<forall>k. dict_get sub k \<noteq> None \<longrightarrow> dict_get sub' k \<noteq> None)
           \<and> (\<forall>key f. dict_get fd ''id'' = Some key \<and> hashable key \<and> filter_type s fd = Inr f
                 \<longrightarrow> dict_get sub' key \<noteq> None)
           \<and> filter_type (post (add_filter fd lt s)) = filter_type s"
  using assms
  by (auto simp: add_filter_def except_TypeError_def dict_get_set split: sum.splits option.splits)

lemma add_filters_presence:
  assumes "dict_get (filter_lists s) lt = Some sub" and "raised (add_filters fds lt s log) = None"
  shows "\<exists>sub'. dict_get (filter_lists (post (add_filters fds lt s log))) lt = Some sub'
           \<and> (\<forall>k. dict_get sub k \<noteq> None \<longrightarrow> dict_get sub' k \<noteq> None)
           \<and> (\<forall>fd \<in> set fds. \<forall>key f.
                 dict_get fd ''id'' = Some key \<and> hashable key \<and> filter_type s fd = Inr f
                 \<longrightarrow> dict_get sub' key \<noteq> None)"
  using assms
proof (induction fds arbitrary: s log sub)
  case Nil
  then show ?case by simp
next
  case (Cons fd fds)
  obtain s' w r where af: "add_filter fd lt s = Outcome s' w r" by (cases "add_filter fd lt s")
  from add_filter_presence[OF Cons.prems(1), of fd] af
  obtain sub1 where s1: "dict_get (filter_lists s') lt = Some sub1"
      "\<forall>k. dict_get sub k \<noteq> None \<longrightarrow> dict_get sub1 k \<noteq> None"
      "\<forall>key f. dict_get fd ''id'' = Some key \<and> hashable key \<and> filter_type s fd = Inr f
                 \<longrightarrow> dict_get sub1 key \<noteq> None"
      "filter_type s' = filter_type s"
    by auto
  from af Cons.prems(2) have r: "r = None" by (cases r) simp_all
  with af have eq: "add_filters (fd # fds) lt s log = add_filters fds lt s' (log @ w)" by simp
  with Cons.prems(2) have ok: "raised (add_filters fds lt s' (log @ w)) = None" by simp
  from Cons.IH[OF s1(1) ok] s1(4)
  obtain sub' where sub':
      "dict_get (filter_lists (post (add_filters fds lt s' (log @ w)))) lt = Some sub'"
      "\<forall>k. dict_get sub1 k \<noteq> None \<longrightarrow> dict_get sub' k \<noteq> None"
      "\<forall>fd \<in> set fds. \<forall>key f.
          dict_get fd ''id'' = Some key \<and> hashable key \<and> filter_type s fd = Inr f
          \<longrightarrow> dict_get sub' key \<noteq> None"
    by auto
  have "\<forall>k. dict_get sub k \<noteq> None \<longrightarrow> dict_get sub' k \<noteq> None"
    using s1(2) sub'(2) by blast
  moreover have "\<forall>fd' \<in> set (fd # fds). \<forall>key f.
          dict_get fd' ''id'' = Some key \<and> hashable key \<and> filter_type s fd' = Inr f
          \<longrightarrow> dict_get sub' key \<noteq> None"
    using s1(3) sub'(2,3) by auto
  ultimately show ?case unfolding eq using sub'(1) by blast
qed

lemma add_list_loaded:
  assumes "raised (add_list cs d s) = None"
  shows "holds_record cs d (post (add_list cs d s))"
proof -
  from assms obtain av where av: "cs (raw_settings d) = Inr av"
    by (cases "cs (raw_settings d)") (auto simp: add_list_def)
  obtain a v where av': "av = (a, v)" by (cases av)
  from assms av obtain lt where lt: "ListType_of (raw_list_type d) = Inr lt"
    by (cases "ListType_of (raw_list_type d)") (auto simp: add_list_def av')
  let ?s1 = "s\<lparr>defaults := dict_set (defaults s) lt (a, v),
                list_ids := dict_set (list_ids s) lt (raw_id d),
                filter_lists := dict_set (filter_lists s) lt []\<rparr>"
  have eq: "add_list cs d s = add_filters (raw_filters d) lt ?s1 []"
    using av av' lt by (simp add: add_list_def)
  have start: "dict_get (filter_lists ?s1) lt = Some []" by (simp add: dict_get_set)
  from assms have ok: "raised (add_filters (raw_filters d) lt ?s1 []) = None" by (simp add: eq)
  from add_filters_presence[OF start ok]
  obtain sub where sub: "dict_get (filter_lists (post (add_list cs d s))) lt = Some sub"
      "\<forall>fd \<in> set (raw_filters d). \<forall>key f.
          dict_get fd ''id'' = Some key \<and> hashable key \<and> filter_type s fd = Inr f
          \<longrightarrow> dict_get sub key \<noteq> None"
    unfolding eq by auto
  from add_list_result[where cs=cs and d=d and av=av and lt=lt and s=s, OF av lt] sub(1)
  have res: "dict_get (list_ids (post (add_list cs d s))) lt = Some (raw_id d)"
      "dict_get (defaults (post (add_list cs d s))) lt = Some av"
      "set sub \<subseteq> from_records (filter_type s) (raw_filters d)"
    by auto
  show ?thesis
    unfolding holds_record_def add_list_filter_type
    using lt av sub res by blast
qed

lemma same_at_refl: "same_at lt fl fl"
  by (simp add: same_at_def)

lemma same_at_trans: "same_at lt a b \<Longrightarrow> same_at lt b c \<Longrightarrow> same_at lt a c"
  by (simp add: same_at_def)

lemma holds_record_same_at:
  assumes "holds_record cs r fl" and "ListType_of (raw_list_type r) = Inr lt" and "same_at lt fl fl'"
  shows "holds_record cs r fl'"
  using assms unfolding holds_record_def same_at_def by auto

text \<open>A record of another list type leaves the entries of a list type alone.\<close>

lemma add_list_same_at:
  assumes "ListType_of (raw_list_type d) \<noteq> Inr lt"
  shows "same_at lt s (post (add_list cs d s))"
  using add_list_post[of cs d s] assms by (auto simp: same_at_def dict_get_set)

lemma load_record_loaded:
  assumes "\<not> (dict_get cog (raw_name raw) = None \<and> T (raw_name raw) = None)"
    and "raised (load_record T cs raw cog aw) = None"
  shows "\<exists>fl. dict_get (fst (post (load_record T cs raw cog aw))) (raw_name raw) = Some fl
            \<and> holds_record cs raw fl"
proof -
  have call: "\<exists>fl. dict_get (fst (post (call_add_list cs raw c aw))) (raw_name raw) = Some fl
            \<and> holds_record cs raw fl"
    if "dict_get c (raw_name raw) = Some fl0" and "raised (call_add_list cs raw c aw) = None"
    for c fl0
  proof -
    obtain p w r where al: "add_list cs raw fl0 = Outcome p w r" by (cases "add_list cs raw fl0")
    with that have "r = None" by (simp add: call_add_list_def)
    with al have "raised (add_list cs raw fl0) = None" by simp
    from add_list_loaded[OF this] al have "holds_record cs raw p" by simp
    with that(1) al show ?thesis by (simp add: call_add_list_def dict_get_set)
  qed
  show ?thesis
  proof (cases "dict_get cog (raw_name raw)")
    case (Some fl0)
    with assms(2) call[OF Some] show ?thesis by (simp add: load_record_def)
  next
    case None
    with assms(1) obtain cls where cls: "T (raw_name raw) = Some cls" by auto
    have fresh: "dict_get (dict_set cog (raw_name raw) (FilterList_init cls)) (raw_name raw)
                   = Some (FilterList_init cls)"
      by (simp add: dict_get_set)
    from None cls assms(2) call[OF fresh] show ?thesis by (simp add: load_record_def)
  qed
qed

lemma load_record_frame:
  assumes "dict_get cog n = Some fl"
    and "\<not> (raw_name raw = n \<and> ListType_of (raw_list_type raw) = Inr lt)"
  shows "\<exists>fl'. dict_get (fst (post (load_record T cs raw cog aw))) n = Some fl' \<and> same_at lt fl fl'"
proof (cases "raw_name raw = n")
  case True
  with assms(2) have other: "ListType_of (raw_list_type raw) \<noteq> Inr lt" by simp
  obtain p w r where al: "add_list cs raw fl = Outcome p w r" by (cases "add_list cs raw fl")
  with add_list_same_at[OF other, of fl cs] have "same_at lt fl p" by simp
  with True assms(1) al show ?thesis
    by (simp add: load_record_def call_add_list_def dict_get_set)
next
  case False
  then have "dict_get (fst (post (load_record T cs raw cog aw))) n = dict_get cog n"
    by (auto simp: load_record_def call_add_list_def Let_def dict_get_set
        split: option.splits outcome.splits)
  with assms(1) same_at_refl[of lt fl] show ?thesis by auto
qed

lemma load_records_frame:
  assumes "dict_get cog n = Some fl"
    and "\<forall>raw \<in> set raws. \<not> (raw_name raw = n \<and> ListType_of (raw_list_type raw) = Inr lt)"
  shows "\<exists>fl'. dict_get (fst (post (load_records T cs raws cog aw log))) n = Some fl'
            \<and> same_at lt fl fl'"
  using assms
proof (induction raws arbitrary: cog aw log fl)
  case Nil
  then show ?case by (auto simp: same_at_refl)
next
  case (Cons raw raws)
  obtain cog' aw' w r where lr: "load_record T cs raw cog aw = Outcome (cog', aw') w r"
    by (cases "load_record T cs raw cog aw") (auto)
  from Cons.prems(2) have here: "\<not> (raw_name raw = n \<and> ListType_of (raw_list_type raw) = Inr lt)"
    and rest: "\<forall>raw \<in> set raws. \<not> (raw_name raw = n \<and> ListType_of (raw_list_type raw) = Inr lt)"
    by simp_all
  from load_record_frame[where cog=cog and n=n and fl=fl and raw=raw and lt=lt and T=T and cs=cs
      and aw=aw, OF Cons.prems(1) here] lr
  obtain fl1 where fl1: "dict_get cog' n = Some fl1" "same_at lt fl fl1" by auto
  show ?case
  proof (cases r)
    case (Some e)
    with lr fl1 show ?thesis by auto
  next
    case None
    with lr have eq: "load_records T cs (raw # raws) cog aw log
                    = load_records T cs raws cog' aw' (log @ w)" by simp
    from Cons.IH[OF fl1(1) rest, of aw' "log @ w"] fl1(2) show ?thesis
      unfolding eq by (auto intro: same_at_trans)
  qed
qed

lemma load_records_append:
  "load_records T cs (xs @ ys) cog aw log =
     (case load_records T cs xs cog aw log of
        Outcome (cog', aw') log' None \<Rightarrow> load_records T cs ys cog' aw' log'
      | Outcome st log' (Some e) \<Rightarrow> Outcome st log' (Some e))"
proof (induction xs arbitrary: cog aw log)
  case Nil
  then show ?case by simp
next
  case (Cons x xs)
  obtain cog' aw' w r where lr: "load_record T cs x cog aw = Outcome (cog', aw') w r"
    by (cases "load_record T cs x cog aw") (auto)
  show ?case
  proof (cases r)
    case None
    with lr Cons.IH[of cog' aw' "log @ w"] show ?thesis by simp
  next
    case (Some e)
    with lr show ?thesis by simp
  qed
qed

lemma ListType_of_inj:
  "ListType_of a = Inr lt \<Longrightarrow> ListType_of b = Inr lt \<Longrightarrow> a = b"
  by (auto simp: ListType_of_def split: if_splits)

text \<open>
  A record of a known name that no later record of the same name and list type replaces is
  what its filter list holds when the load returns.
\<close>

lemma load_records_loaded:
  assumes ok: "raised (load_records T cs (before @ r # after) cog aw log) = None"
    and known: "\<not> (dict_get cog (raw_name r) = None \<and> T (raw_name r) = None)"
    and last: "\<forall>r' \<in> set after. raw_name r' = raw_name r \<longrightarrow> raw_list_type r' \<noteq> raw_list_type r"
  shows "\<exists>fl. dict_get (fst (post (load_records T cs (before @ r # after) cog aw log))) (raw_name r)
                 = Some fl
            \<and> holds_record cs r fl"
proof -
  obtain c1 a1 l1 e1 where b: "load_records T cs before cog aw log = Outcome (c1, a1) l1 e1"
    by (cases "load_records T cs before cog aw log") (auto)
  from ok b have e1: "e1 = None"
    by (cases e1) (simp_all add: load_records_append)
  obtain c2 a2 w e2 where lr: "load_record T cs r c1 a1 = Outcome (c2, a2) w e2"
    by (cases "load_record T cs r c1 a1") (auto)
  from ok b e1 lr have e2: "e2 = None"
    by (cases e2) (simp_all add: load_records_append)
  have whole: "load_records T cs (before @ r # after) cog aw log
             = load_records T cs after c2 a2 (l1 @ w)"
    using b e1 lr e2 by (simp add: load_records_append)
  have known1: "\<not> (dict_get c1 (raw_name r) = None \<and> T (raw_name r) = None)"
  proof (cases "T (raw_name r)")
    case None
    from load_records_keys[where T=T and m="raw_name r" and cs=cs and raws=before and cog=cog
        and aw=aw and log=log, OF None] b known None
    show ?thesis by simp
  next
    case (Some cls)
    then show ?thesis by simp
  qed
  from lr e2 have "raised (load_record T cs r c1 a1) = None" by simp
  from load_record_loaded[where cog=c1 and raw=r and T=T and cs=cs and aw=a1, OF known1 this] lr
  obtain fl where fl: "dict_get c2 (raw_name r) = Some fl" "holds_record cs r fl" by auto
  from fl(2) obtain lt where lt: "ListType_of (raw_list_type r) = Inr lt"
    unfolding holds_record_def by blast
  have others: "\<forall>raw \<in> set after. \<not> (raw_name raw = raw_name r \<and> ListType_of (raw_list_type raw) = Inr lt)"
    using last lt ListType_of_inj by blast
  from load_records_frame[where cog=c2 and n="raw_name r" and fl=fl and raws=after and lt=lt
      and T=T and cs=cs and aw=a2 and log="l1 @ w", OF fl(1) others]
  obtain fl' where fl': "dict_get (fst (post (load_records T cs after c2 a2 (l1 @ w)))) (raw_name r)
        = Some fl'" "same_at lt fl fl'" by auto
  from holds_record_same_at[OF fl(2) lt fl'(2)] fl'(1) show ?thesis
    unfolding whole by blast
qed

text \<open>
  Claim C9. While \<open>cog_load\<close> loads the records, a record whose list name is neither
  among the loaded lists nor in the registry of classes is skipped entirely: the warning
  for a name is logged at most once, however many records carry the name; the name does
  not enter \<open>filter_lists\<close>; and the lists that the load leaves behind, as well as the
  exception that ends it, if any, are those of the load of the other records alone. The
  records of the known names are loaded: when the load returns, every record of a known
  name that no later record of the same name and list type replaces is held by the filter
  list of its name, with its list id, its default settings and its filters, whatever
  unknown records come before or after it.
\<close>

theorem cog_load_skips_unknown_names:
  "count_list (logged (cog_load T cs raws cog)) (NoMatchingClass n) \<le> 1
   \<and> (dict_get cog n = None \<and> T n = None \<longrightarrow> dict_get (fst (post (cog_load T cs raws cog))) n = None)
   \<and> fst (post (cog_load T cs raws cog))
       = fst (post (cog_load T cs
            (filter (\<lambda>r. \<not> (dict_get cog (raw_name r) = None \<and> T (raw_name r) = None)) raws) cog))
   \<and> raised (cog_load T cs raws cog)
       = raised (cog_load T cs
            (filter (\<lambda>r. \<not> (dict_get cog (raw_name r) = None \<and> T (raw_name r) = None)) raws) cog)
   \<and> (raws = before @ r # after
        \<and> raised (cog_load T cs raws cog) = None
        \<and> \<not> (dict_get cog (raw_name r) = None \<and> T (raw_name r) = None)
        \<and> (\<forall>r' \<in> set after. raw_name r' = raw_name r \<longrightarrow> raw_list_type r' \<noteq> raw_list_type r)
        \<longrightarrow> (\<exists>fl. dict_get (fst (post (cog_load T cs raws cog))) (raw_name r) = Some fl
                  \<and> holds_record cs r fl))"
proof -
  have loaded: "\<exists>fl. dict_get (fst (post (cog_load T cs raws cog))) (raw_name r) = Some fl
                  \<and> holds_record cs r fl"
    if "raws = before @ r # after" and "raised (cog_load T cs raws cog) = None"
      and "\<not> (dict_get cog (raw_name r) = None \<and> T (raw_name r) = None)"
      and "\<forall>r' \<in> set after. raw_name r' = raw_name r \<longrightarrow> raw_list_type r' \<noteq> raw_list_type r"
    using load_records_loaded[where T=T and cs=cs and before=before and r=r and after=after
        and cog=cog and aw="{}" and log="[]"] that
    by (simp add: cog_load_def)
  have skipped: "count_list (logged (cog_load T cs raws cog)) (NoMatchingClass n) \<le> 1
   \<and> (dict_get cog n = None \<and> T n = None \<longrightarrow> dict_get (fst (post (cog_load T cs raws cog))) n = None)
   \<and> fst (post (cog_load T cs raws cog))
       = fst (post (cog_load T cs
            (filter (\<lambda>r. \<not> (dict_get cog (raw_name r) = None \<and> T (raw_name r) = None)) raws) cog))
   \<and> raised (cog_load T cs raws cog)
       = raised (cog_load T cs
            (filter (\<lambda>r. \<not> (dict_get cog (raw_name r) = None \<and> T (raw_name r) = None)) raws) cog)"
    using load_records_count[where T=T and cs=cs and raws=raws and cog=cog and aw="{}" and log="[]" and n=n]
      load_records_keys[where T=T and m=n and cs=cs and raws=raws and cog=cog and aw="{}" and log="[]"]
      load_records_skip[where T=T and cs=cs and raws=raws and cog=cog and aw="{}" and log="[]"
        and aw'="{}" and log'="[]"]
    by (simp add: cog_load_def)
  from skipped loaded show ?thesis by blast
qed

theorem cog_load_skips_unknown_names_witness:
  "logged (cog_load token_only keep_raw [mystery_list, token_deny_v1, mystery_list] [])
     = [NoMatchingClass ''mystery'']
   \<and> raised (cog_load token_only keep_raw [mystery_list, token_deny_v1, mystery_list] []) = None
   \<and> fst (post (cog_load token_only keep_raw [mystery_list, token_deny_v1, mystery_list] []))
       = [(''token'', \<lparr>list_ids = [(DENY, PyInt 1)],
                        filter_lists = [(DENY, [(PyInt 10, ''first'')])],
                        defaults = [(DENY, ([], []))], filter_type = content_filter\<rparr>)]
   \<and> count_list (logged (cog_load token_only keep_raw [mystery_list, token_deny_v1, mystery_list] []))
       (NoMatchingClass ''mystery'') \<le> 1
   \<and> dict_get (fst (post (cog_load token_only keep_raw [mystery_list, token_deny_v1, mystery_list] [])))
       ''mystery'' = None
   \<and> (\<exists>fl. dict_get (fst (post (cog_load token_only keep_raw
                [mystery_list, token_deny_v1, mystery_list] []))) ''token'' = Some fl
           \<and> holds_record keep_raw token_deny_v1 fl)"
proof -
  let ?raws = "[mystery_list, token_deny_v1, mystery_list]"
  let ?token = "\<lparr>list_ids = [(DENY, PyInt 1)], filter_lists = [(DENY, [(PyInt 10, ''first'')])],
                 defaults = [(DENY, ([], []))], filter_type = content_filter\<rparr>"
  have names: "raw_name mystery_list = ''mystery''" "raw_name token_deny_v1 = ''token''"
    by (simp_all add: mystery_list_def token_deny_v1_def)
  have reg: "token_only ''mystery'' = None" "token_only ''token'' = Some content_filter"
    by (simp_all add: token_only_def)
  have al: "add_list keep_raw token_deny_v1 (FilterList_init content_filter)
              = Outcome ?token [] None"
    by (simp add: token_deny_v1_def add_list_def keep_raw_def
        FilterList_init_def ListType_of_def add_filter_def content_filter_def)
  have all: "cog_load token_only keep_raw ?raws []
              = Outcome ([(''token'', ?token)], {''mystery''}) [NoMatchingClass ''mystery''] None"
    by (simp add: cog_load_def load_record_def call_add_list_def Let_def names reg al)
  have split: "?raws = [mystery_list] @ token_deny_v1 # [mystery_list]" by simp
  have ok: "raised (cog_load token_only keep_raw ?raws []) = None" by (simp add: all)
  have known: "\<not> (dict_get [] (raw_name token_deny_v1) = None \<and> token_only (raw_name token_deny_v1) = None)"
    by (simp add: names reg)
  have last: "\<forall>r' \<in> set [mystery_list].
      raw_name r' = raw_name token_deny_v1 \<longrightarrow> raw_list_type r' \<noteq> raw_list_type token_deny_v1"
    by (simp add: names)
  note inst = cog_load_skips_unknown_names[where T=token_only and cs=keep_raw and raws="?raws"
      and cog="[]" and n="''mystery''" and before="[mystery_list]" and r=token_deny_v1
      and after="[mystery_list]"]
  from inst reg(1) dict_get.simps(1)[of "''mystery''"]
  have a: "count_list (logged (cog_load token_only keep_raw ?raws [])) (NoMatchingClass ''mystery'') \<le> 1"
    and b: "dict_get (fst (post (cog_load token_only keep_raw ?raws []))) ''mystery'' = None"
    by blast+
  from inst split ok known last
  have c: "\<exists>fl. dict_get (fst (post (cog_load token_only keep_raw ?raws []))) (raw_name token_deny_v1)
                   = Some fl \<and> holds_record keep_raw token_deny_v1 fl"
    by blast
  from a b c all show ?thesis by (simp add: names)
qed

section \<open>Subscriptions and the resolution of actions\<close>

lemma subscribe_at:
  "subscribe fl evs subs e = (if e \<in> set evs \<and> fl \<notin> set (subs e) then subs e @ [fl] else subs e)"
  by (induction fl evs subs rule: subscribe.induct) auto

lemma subscribe_idem: "subscribe fl evs (subscribe fl evs subs) = subscribe fl evs subs"
  by (rule ext) (simp add: subscribe_at)

text \<open>Any sequence of calls of \<open>subscribe\<close> keeps the lists free of duplicates.\<close>

lemma subscribe_calls_distinct:
  "\<forall>e. distinct (subs e) \<Longrightarrow>
     distinct (fold (\<lambda>call. subscribe (fst call) (snd call)) calls subs e)"
proof (induction calls arbitrary: subs e)
  case Nil
  then show ?case by simp
next
  case (Cons call calls)
  have "\<forall>e. distinct (subscribe (fst call) (snd call) subs e)"
    using Cons.prems by (simp add: subscribe_at)
  from Cons.IH[OF this] show ?case by simp
qed

text \<open>
  Claim C10. \<open>subscribe\<close> appends the filter list to the list of an event only if the
  event is among the given ones and the filter list is not yet in that list; every other
  list is left as it is, so nothing is removed or reordered. Subscribing the same filter
  list to the same events again changes nothing. A list of subscribers without duplicates
  stays without duplicates; the subscriptions start out empty, so after any sequence of
  calls of \<open>subscribe\<close> every filter list occurs at most once in the list of an event.
\<close>

theorem subscribe_deduplicates:
  "subscribe fl evs subs e = (if e \<in> set evs \<and> fl \<notin> set (subs e) then subs e @ [fl] else subs e)
   \<and> subscribe fl evs (subscribe fl evs subs) = subscribe fl evs subs
   \<and> (distinct (subs e) \<longrightarrow> distinct (subscribe fl evs subs e))
   \<and> distinct (fold (\<lambda>call. subscribe (fst call) (snd call)) calls (\<lambda>e. []) e)"
  using subscribe_calls_distinct[of "\<lambda>e. []" calls e]
  by (simp add: subscribe_at subscribe_idem)

theorem subscribe_deduplicates_witness:
  "distinct (message_subscribers MESSAGE)
   \<and> subscribe ''token'' [MESSAGE, MESSAGE_EDIT, MESSAGE] message_subscribers MESSAGE
       = [''invite'', ''token'', ''domain'']
   \<and> subscribe ''token'' [MESSAGE, MESSAGE_EDIT, MESSAGE] message_subscribers MESSAGE_EDIT = [''token'']
   \<and> distinct (subscribe ''token'' [MESSAGE, MESSAGE_EDIT, MESSAGE] message_subscribers MESSAGE)"
proof -
  have d: "distinct (message_subscribers MESSAGE)" by (simp add: message_subscribers_def)
  have m: "message_subscribers MESSAGE = [''invite'', ''token'', ''domain'']"
    "message_subscribers MESSAGE_EDIT = []"
    by (simp_all add: message_subscribers_def)
  note inst = subscribe_deduplicates[of "''token''" "[MESSAGE, MESSAGE_EDIT, MESSAGE]" message_subscribers]
  from inst[of MESSAGE] inst[of MESSAGE_EDIT] d m show ?thesis by simp
qed






section \<open>Looking up lists and filters\<close>

lemma find_in_sublists_None:
  "find_in_sublists subs i = None \<longleftrightarrow> (\<forall>p \<in> set subs. dict_get (snd p) (PyInt i) = None)"
  by (induction subs i rule: find_in_sublists.induct) (auto split: option.splits)

lemma get_filter_by_id_None:
  "get_filter_by_id cog i = None \<longleftrightarrow>
     (\<forall>q \<in> set cog. \<forall>p \<in> set (filter_lists (snd q)). dict_get (snd p) (PyInt i) = None)"
proof (induction cog i rule: get_filter_by_id.induct)
  case (1 ident)
  then show ?case by simp
next
  case (2 list_name filter_list rest ident)
  show ?case
  proof (cases "find_in_sublists (filter_lists filter_list) ident")
    case None
    then have here: "\<forall>p \<in> set (filter_lists filter_list). dict_get (snd p) (PyInt ident) = None"
      by (simp add: find_in_sublists_None)
    from "2.IH"[OF None] None here show ?thesis by simp
  next
    case (Some found)
    then have "\<not> (\<forall>p \<in> set (filter_lists filter_list). dict_get (snd p) (PyInt ident) = None)"
      by (simp add: find_in_sublists_None[symmetric])
    with Some show ?thesis by (auto split: prod.splits)
  qed
qed

text \<open>
  Claim C8, as the code has it. The claim holds but for the case of the letters: the name
  is looked up with \<open>dict.get\<close>, which compares strings exactly. Amended: a name that is
  stored is resolved to its list, by exact, case-sensitive comparison; the plural of a
  stored name, the name followed by \<open>s\<close>, is resolved to the list of the name unless the
  plural is itself stored; a name that is not stored, and whose last letter is not \<open>s\<close> or
  whose remainder without the last letter is not stored either, raises BadArgument; and
  \<open>_get_filter_by_id\<close> returns \<open>None\<close> for an id that no sub-list of any list holds.
\<close>

theorem lookup_exact_or_plural:
  "(dict_get cog n = Some fl \<longrightarrow>
      get_list_by_name cog n = Inr fl
      \<and> (dict_get cog (n @ ''s'') = None \<longrightarrow> get_list_by_name cog (n @ ''s'') = Inr fl))
   \<and> (dict_get cog n = None \<and> (endswith_s n \<longrightarrow> dict_get cog (butlast n) = None) \<longrightarrow>
        get_list_by_name cog n = Inl BadArgument)
   \<and> ((\<forall>(name, l) \<in> set cog. \<forall>(lt, sub) \<in> set (filter_lists l). dict_get sub (PyInt i) = None) \<longrightarrow>
        get_filter_by_id cog i = None)"
  by (auto simp: get_list_by_name_def endswith_s_def get_filter_by_id_None case_prod_beta
      split: option.splits)

theorem lookup_exact_or_plural_witness:
  "get_list_by_name [(''token'', loaded_once)] ''token'' = Inr loaded_once
   \<and> get_list_by_name [(''token'', loaded_once)] ''tokens'' = Inr loaded_once
   \<and> get_list_by_name [(''token'', loaded_once)] ''domain'' = Inl BadArgument
   \<and> get_filter_by_id [(''token'', loaded_once)] 99 = None
   \<and> get_filter_by_id [(''token'', loaded_once)] 10 = Some (''first'', loaded_once, DENY)"
proof -
  let ?cog = "[(''token'', loaded_once)]"
  have lo: "filter_lists loaded_once = [(DENY, [(PyInt 10, ''first'')])]"
    by (simp add: loaded_once_def token_deny_v1_def add_list_def keep_raw_def
        FilterList_init_def ListType_of_def add_filter_def content_filter_def)
  have g: "dict_get ?cog ''token'' = Some loaded_once" "dict_get ?cog (''token'' @ ''s'') = None"
    "dict_get ?cog ''domain'' = None" "\<not> endswith_s ''domain''"
    by (simp_all add: endswith_s_def)
  have none: "\<forall>(name, l) \<in> set ?cog. \<forall>(lt, sub) \<in> set (filter_lists l). dict_get sub (PyInt 99) = None"
    by (simp add: lo)
  have found: "get_filter_by_id ?cog 10 = Some (''first'', loaded_once, DENY)"
    by (simp add: lo)
  from lookup_exact_or_plural[of ?cog "''token''" loaded_once 99]
       lookup_exact_or_plural[of ?cog "''domain''" loaded_once 99] g none found
  show ?thesis by simp
qed

text \<open>
  The claim C8 as stated fails: the list stored under \<open>token\<close> is not found under
  \<open>Token\<close>.
\<close>

theorem get_list_by_name_case_sensitive:
  "dict_get [(''token'', loaded_once)] ''token'' = Some loaded_once
   \<and> get_list_by_name [(''token'', loaded_once)] ''Token'' = Inl BadArgument"
  by (simp add: get_list_by_name_def endswith_s_def)

end
